theory Spec2Isabelle
  imports Complex_Main "HOL-Library.Word"
begin

section \<open>Binary32 floating point\<close>

text \<open>
  The header \<open>qnnpack_utils.h\<close> computes on C++ \<open>float\<close>. A \<open>float\<close> is modelled as its
  three IEEE 754 binary32 fields, so that the values of the type below are exactly the
  2^32 bit patterns: one sign bit, 8 bits of biased exponent, 23 bits of fraction.

  Three conventions hold throughout. Every \<open>float\<close> operation rounds its exact result
  to binary32 at once, in the default rounding mode (round to nearest, ties to even),
  which the header never changes. An invalid operation yields one fixed quiet NaN: the
  standard leaves open which, and no statement below depends on it. Integer addition
  is the two's-complement addition of the machine, while a conversion from \<open>float\<close> to
  \<open>int32_t\<close> whose value does not fit has no result at all.
\<close>

datatype float32 = Float32 (f_sign: bool) (f_expo: "8 word") (f_frac: "23 word")

definition is_nan :: "float32 \<Rightarrow> bool" where
  "is_nan x = (f_expo x = 255 \<and> f_frac x \<noteq> 0)"

definition is_inf :: "float32 \<Rightarrow> bool" where
  "is_inf x = (f_expo x = 255 \<and> f_frac x = 0)"

definition is_zero :: "float32 \<Rightarrow> bool" where
  "is_zero x = (f_expo x = 0 \<and> f_frac x = 0)"

definition f32_nan :: float32 where
  "f32_nan = Float32 False 255 4194304"

definition f32_inf :: "bool \<Rightarrow> float32" where
  "f32_inf s = Float32 s 255 0"

definition f32_zero :: "bool \<Rightarrow> float32" where
  "f32_zero s = Float32 s 0 0"

text \<open>
  A finite float is \<open>(-1)^sign * mant * 2^exp2\<close>: the significand with its hidden bit
  as a natural number, and the exponent of its last place.
\<close>

definition mant :: "float32 \<Rightarrow> nat" where
  "mant x = (if f_expo x = 0 then unat (f_frac x) else 2 ^ 23 + unat (f_frac x))"

definition exp2 :: "float32 \<Rightarrow> int" where
  "exp2 x = (if f_expo x = 0 then - 149 else int (unat (f_expo x)) - 150)"

text \<open>The comparison \<open>x > 0\<close> of C++: false for a NaN and for both zeros.\<close>

definition f32_pos :: "float32 \<Rightarrow> bool" where
  "f32_pos x = (\<not> is_nan x \<and> \<not> is_zero x \<and> \<not> f_sign x)"

subsection \<open>Rounding to nearest, ties to even\<close>

text \<open>\<open>rne n d\<close> is the integer nearest to \<open>n / d\<close>, the even one of the two at a tie.\<close>

definition rne :: "nat \<Rightarrow> nat \<Rightarrow> nat" where
  "rne n d =
     (let t = n div d; r = n mod d
      in if 2 * r < d then t
         else if d < 2 * r then t + 1
         else if even t then t else t + 1)"

text \<open>The number of binary digits of a natural number.\<close>

fun blen :: "nat \<Rightarrow> nat" where
  "blen n = (if n = 0 then 0 else Suc (blen (n div 2)))"

declare blen.simps [simp del]

text \<open>\<open>flog2 n d\<close> is the integer \<open>k\<close> with \<open>2^k \<le> n / d < 2^(k+1)\<close>, for positive \<open>n\<close>, \<open>d\<close>.\<close>

definition flog2 :: "nat \<Rightarrow> nat \<Rightarrow> int" where
  "flog2 n d =
     (let k = int (blen n) - int (blen d)
      in if d * 2 ^ nat k \<le> n * 2 ^ nat (- k) then k else k - 1)"

text \<open>
  \<open>round_f32 s n d e\<close> is the binary32 value nearest to \<open>(-1)^s * (n / d) * 2^e\<close> (for
  positive \<open>n\<close> and \<open>d\<close>) in the default rounding mode of IEEE 754, round to nearest
  with ties to even: the last place of the result is \<open>2^q\<close>, 24 significant bits unless
  the result is subnormal; a significand that rounds up to \<open>2^24\<close> moves to the next
  exponent, and a result beyond the largest finite value is an infinity.
\<close>

definition round_f32 :: "bool \<Rightarrow> nat \<Rightarrow> nat \<Rightarrow> int \<Rightarrow> float32" where
  "round_f32 s n d e =
     (let q = max (flog2 n d + e - 23) (- 149);
          sh = e - q;
          m = rne (n * 2 ^ nat sh) (d * 2 ^ nat (- sh));
          m' = (if m = 2 ^ 24 then 2 ^ 23 else m);
          q' = (if m = 2 ^ 24 then q + 1 else q)
      in if m' < 2 ^ 23 then Float32 s 0 (of_nat m')
         else if 255 \<le> q' + 150 then f32_inf s
         else Float32 s (of_nat (nat (q' + 150))) (of_nat (m' - 2 ^ 23)))"

subsection \<open>Division, multiplication, nearbyint and the conversion to int32_t\<close>

definition f32_div :: "float32 \<Rightarrow> float32 \<Rightarrow> float32" where
  "f32_div a b =
     (let s = (f_sign a \<noteq> f_sign b)
      in if is_nan a \<or> is_nan b then f32_nan
         else if is_inf a then (if is_inf b then f32_nan else f32_inf s)
         else if is_inf b then f32_zero s
         else if is_zero b then (if is_zero a then f32_nan else f32_inf s)
         else if is_zero a then f32_zero s
         else round_f32 s (mant a) (mant b) (exp2 a - exp2 b))"

definition f32_mul :: "float32 \<Rightarrow> float32 \<Rightarrow> float32" where
  "f32_mul a b =
     (let s = (f_sign a \<noteq> f_sign b)
      in if is_nan a \<or> is_nan b then f32_nan
         else if is_inf a \<or> is_inf b then
           (if is_zero a \<or> is_zero b then f32_nan else f32_inf s)
         else if is_zero a \<or> is_zero b then f32_zero s
         else round_f32 s (mant a * mant b) 1 (exp2 a + exp2 b))"

text \<open>
  \<open>std::nearbyint\<close> rounds to an integral value in the current rounding mode, which is
  round to nearest, ties to even, unless the program changes it (the header never does).
  A NaN, an infinity, a zero and a value without fractional bits come back unchanged.
\<close>

definition nearbyint :: "float32 \<Rightarrow> float32" where
  "nearbyint x =
     (if is_nan x \<or> is_inf x \<or> is_zero x \<or> 0 \<le> exp2 x then x
      else let k = rne (mant x) (2 ^ nat (- exp2 x))
           in if k = 0 then f32_zero (f_sign x) else round_f32 (f_sign x) k 1 0)"

text \<open>The template \<open>Round\<close> of the header, at \<open>T = float\<close>.\<close>

definition Round :: "float32 \<Rightarrow> float32" where
  "Round x = nearbyint x"

datatype error =
    CastOutOfRange   \<comment> \<open>undefined: \<open>static_cast<int32_t>\<close> of a NaN, an infinity or a value outside int32_t\<close>
  | Unreachable      \<comment> \<open>undefined: control reached \<open>__builtin_unreachable()\<close>\<close>
  | IndexError       \<comment> \<open>thrown by the tensor library: no such dimension or element\<close>

text \<open>
  Of the three, only \<open>IndexError\<close> is a failure the program raises; the other two mark
  undefined behaviour, where the C++ standard promises nothing at all.
\<close>

fun explicit_failure :: "error \<Rightarrow> bool" where
  "explicit_failure IndexError = True"
| "explicit_failure CastOutOfRange = False"
| "explicit_failure Unreachable = False"

text \<open>The integer part of a finite float, towards zero.\<close>

definition f32_trunc :: "float32 \<Rightarrow> int" where
  "f32_trunc x =
     (let a = (if 0 \<le> exp2 x then int (mant x) * 2 ^ nat (exp2 x)
               else int (mant x div 2 ^ nat (- exp2 x)))
      in if f_sign x then - a else a)"

text \<open>
  \<open>static_cast<int32_t>(x)\<close> truncates towards zero; the behaviour is undefined when the
  truncated value is not representable, which covers every NaN and infinity.
\<close>

definition f32_to_int32 :: "float32 \<Rightarrow> error + 32 word" where
  "f32_to_int32 x =
     (if is_nan x \<or> is_inf x then Inl CastOutOfRange
      else if - (2 ^ 31) \<le> f32_trunc x \<and> f32_trunc x < 2 ^ 31
           then Inr (word_of_int (f32_trunc x))
           else Inl CastOutOfRange)"

section \<open>The quantizer\<close>

text \<open>
  \<open>std::max\<close> and \<open>std::min\<close> on \<open>int32_t\<close>, by the signed order. The addition of the
  zero point is the two's-complement addition of the machine.
\<close>

definition max_i32 :: "32 word \<Rightarrow> 32 word \<Rightarrow> 32 word" where
  "max_i32 a b = (if a <s b then b else a)"

definition min_i32 :: "32 word \<Rightarrow> 32 word \<Rightarrow> 32 word" where
  "min_i32 a b = (if b <s a then b else a)"

definition QuantizeUint8 :: "float32 \<Rightarrow> 32 word \<Rightarrow> float32 \<Rightarrow> error + 8 word" where
  "QuantizeUint8 scale zero_point val =
     (let qmin = (0 :: 32 word); qmax = (255 :: 32 word)
      in case f32_to_int32 (Round (f32_div val scale)) of
           Inl e \<Rightarrow> Inl e
         | Inr c \<Rightarrow>
             (let r = zero_point + c;
                  r = max_i32 r qmin;
                  r = min_i32 r qmax
              in Inr (ucast r)))"

section \<open>The activation limits\<close>

text \<open>
  \<open>enum class Activation : uint8_t { NONE = 0, RELU = 1 }\<close>: the underlying type is
  fixed, so every \<open>uint8_t\<close> value is a value of the enumeration, named or not.
\<close>

type_synonym Activation = "8 word"

definition NONE :: Activation where
  "NONE = 0"

definition RELU :: Activation where
  "RELU = 1"

text \<open>
  The \<open>switch\<close> of \<open>activationLimits\<close>. The literal \<open>0.0\<close> passed for the \<open>float\<close>
  parameter is positive zero. The \<open>default\<close> label holds nothing but
  \<open>__builtin_unreachable()\<close> (\<open>__assume(0)\<close> under MSVC).
\<close>

definition activationLimits :: "float32 \<Rightarrow> 32 word \<Rightarrow> Activation \<Rightarrow> error + (8 word \<times> 8 word)" where
  "activationLimits scale zero_point Ac =
     (if Ac = NONE then Inr (0, 255)
      else if Ac = RELU then
        (case QuantizeUint8 scale zero_point (f32_zero False) of
           Inl e \<Rightarrow> Inl e
         | Inr lo \<Rightarrow> Inr (lo, 255))
      else Inl Unreachable)"

section \<open>The loops over the output channels\<close>

text \<open>
  Every loop of \<open>make_zero_points_and_scales_tensor\<close> has the shape
  \<open>for (int i = 0; i < n; ++i) buf[i] = rhs(i);\<close>.
  \<open>store_loop n rhs i buf\<close> is that loop from counter \<open>i\<close> on; a right-hand side that
  throws ends it. Channel counts are natural numbers here: the \<open>int\<close> counter is not
  given a width of its own.
\<close>

function store_loop :: "nat \<Rightarrow> (nat \<Rightarrow> error + 'a) \<Rightarrow> nat \<Rightarrow> 'a list \<Rightarrow> error + 'a list" where
  "store_loop n rhs i buf =
     (if i < n then
        (case rhs i of
           Inl e \<Rightarrow> Inl e
         | Inr v \<Rightarrow> store_loop n rhs (Suc i) (buf[i := v]))
      else Inr buf)"
  by pat_completeness auto
termination
  by (relation "measure (\<lambda>(n, rhs, i, buf). n - i)") auto

declare store_loop.simps [simp del]

section \<open>The requantization scales\<close>

definition f32_one :: float32 where
  "f32_one = Float32 False 127 0"

text \<open>
  \<open>weight_scales\<close> is read through \<open>data_ptr<float>()\<close> as \<open>numel()\<close> floats: a list.
  The vector starts as \<open>n\<close> copies of \<open>1.f\<close>; the product and the quotient are both
  \<open>float\<close> operations, left to right. \<open>requant_loop\<close> is the \<open>for\<close> loop from
  counter \<open>i\<close> on.
\<close>

function requant_loop :: "float32 list \<Rightarrow> float32 \<Rightarrow> float32 \<Rightarrow> nat \<Rightarrow> float32 list \<Rightarrow> float32 list" where
  "requant_loop weight_scales input_scale output_scale i requant_scales =
     (if i < length weight_scales then
        requant_loop weight_scales input_scale output_scale (Suc i)
          (requant_scales[i := f32_div (f32_mul (weight_scales ! i) input_scale) output_scale])
      else requant_scales)"
  by pat_completeness auto
termination
  by (relation "measure (\<lambda>(ws, a, b, i, r). length ws - i)") auto

declare requant_loop.simps [simp del]

definition generate_requantization_scales :: "float32 list \<Rightarrow> float32 \<Rightarrow> float32 \<Rightarrow> float32 list" where
  "generate_requantization_scales weight_scales input_scale output_scale =
     (let num_output_channels = length weight_scales;
          requant_scales = replicate num_output_channels f32_one
      in requant_loop weight_scales input_scale output_scale 0 requant_scales)"

section \<open>Zero points and scales of a weight tensor\<close>

text \<open>
  The quantization schemes. The function below tests for the first two; the other two
  stand for every scheme it does not test for.
\<close>

datatype QScheme = kPerTensorAffine | kPerChannelAffine | kPerTensorSymmetric | kPerChannelSymmetric

text \<open>
  Modelled from the spec: the quantized weight tensor, whose class is declared outside
  this header. It is what the accessors the function calls return: \<open>size(0)\<close>,
  \<open>qscheme()\<close>, \<open>q_scale()\<close>, \<open>q_zero_point()\<close>, \<open>q_per_channel_scales()\<close> and
  \<open>q_per_channel_zero_points()\<close>. The scalar scale is a float and the scalar zero point
  an integer, as in the spec's data model; the per-channel zero points are what
  \<open>item<int32_t>()\<close> reads, the per-channel scales what \<open>item<float>()\<close> reads.
\<close>

record QTensor =
  size0 :: nat
  qscheme :: QScheme
  q_scale :: float32
  q_zero_point :: int
  q_per_channel_scales :: "float32 list"
  q_per_channel_zero_points :: "32 word list"

text \<open>Indexing a per-channel tensor: it throws past the end.\<close>

definition item :: "'a list \<Rightarrow> nat \<Rightarrow> error + 'a" where
  "item xs i = (if i < length xs then Inr (xs ! i) else Inl IndexError)"

text \<open>
  \<open>at::native::empty_cpu\<close> allocates without writing: the \<open>n\<close> elements hold whatever
  the memory held, which is a parameter of the model.
\<close>

definition empty_cpu :: "nat \<Rightarrow> (nat \<Rightarrow> 'a) \<Rightarrow> 'a list" where
  "empty_cpu n mem = map mem [0..<n]"

text \<open>
  The two \<open>if\<close>/\<open>else if\<close> chains of \<open>make_zero_points_and_scales_tensor\<close>, neither
  with a final \<open>else\<close>. The casts \<open>(uint8_t)(... + 128)\<close> keep the low 8 bits of the sum.
\<close>

definition make_zero_points_and_scales_tensor ::
    "QTensor \<Rightarrow> (nat \<Rightarrow> 8 word) \<Rightarrow> (nat \<Rightarrow> float32) \<Rightarrow> error + (8 word list \<times> float32 list)" where
  "make_zero_points_and_scales_tensor weight_contig zp_mem scale_mem =
     (let num_output_channels = size0 weight_contig;
          qtype = qscheme weight_contig;
          weight_zp = empty_cpu num_output_channels zp_mem
      in case (if qtype = kPerTensorAffine then
                 store_loop num_output_channels
                   (\<lambda>i. Inr (word_of_int (q_zero_point weight_contig + 128))) 0 weight_zp
               else if qtype = kPerChannelAffine then
                 store_loop num_output_channels
                   (\<lambda>i. case item (q_per_channel_zero_points weight_contig) i of
                          Inl e \<Rightarrow> Inl e
                        | Inr z \<Rightarrow> Inr (ucast (z + 128)))
                   0 weight_zp
               else Inr weight_zp) of
           Inl e \<Rightarrow> Inl e
         | Inr weight_zp_data \<Rightarrow>
             (let weight_scales = empty_cpu num_output_channels scale_mem
              in case (if qtype = kPerTensorAffine then
                         store_loop num_output_channels
                           (\<lambda>i. Inr (q_scale weight_contig)) 0 weight_scales
                       else if qtype = kPerChannelAffine then
                         store_loop num_output_channels
                           (\<lambda>i. item (q_per_channel_scales weight_contig) i) 0 weight_scales
                       else Inr weight_scales) of
                   Inl e \<Rightarrow> Inl e
                 | Inr weight_scales_data \<Rightarrow> Inr (weight_zp_data, weight_scales_data)))"

section \<open>Reference notions for the statements\<close>

text \<open>The real number a finite float stands for.\<close>

definition valof :: "float32 \<Rightarrow> real" where
  "valof x = (if f_sign x then - 1 else 1) * real (mant x) * 2 powi exp2 x"

text \<open>Rounding a real number to the nearest integer, a tie to the even neighbour.\<close>

definition round_half_even :: "real \<Rightarrow> int" where
  "round_half_even r =
     (let f = \<lfloor>r\<rfloor>; d = r - of_int f
      in if d < 1 / 2 then f
         else if 1 / 2 < d then f + 1
         else if even f then f else f + 1)"

text \<open>Saturation of an integer into the range of \<open>uint8_t\<close>.\<close>

definition clamp_u8 :: "int \<Rightarrow> int" where
  "clamp_u8 r = max 0 (min 255 r)"

definition in_int32 :: "int \<Rightarrow> bool" where
  "in_int32 n = (- (2 ^ 31) \<le> n \<and> n < 2 ^ 31)"

text \<open>
  Some float literals: 0.5, 1.5, 2.0, 3.0, 4.0, 0.25, the floats nearest to 0.1 and to
  0.2, and 2^31 (2^30 further down).
\<close>

definition f32_half :: float32 where
  "f32_half = Float32 False 126 0"

definition f32_one_and_half :: float32 where
  "f32_one_and_half = Float32 False 127 4194304"

definition f32_two :: float32 where
  "f32_two = Float32 False 128 0"

definition f32_three :: float32 where
  "f32_three = Float32 False 128 4194304"

definition f32_four :: float32 where
  "f32_four = Float32 False 129 0"

definition f32_quarter :: float32 where
  "f32_quarter = Float32 False 125 0"

definition f32_tenth :: float32 where
  "f32_tenth = Float32 False 123 5033165"

definition f32_fifth :: float32 where
  "f32_fifth = Float32 False 124 5033165"

definition f32_2p31 :: float32 where
  "f32_2p31 = Float32 False 158 0"

text \<open>Contents of freshly allocated memory, and some weight tensors, for the examples.\<close>

definition stale_bytes :: "nat \<Rightarrow> 8 word" where
  "stale_bytes i = 170"

definition stale_floats :: "nat \<Rightarrow> float32" where
  "stale_floats i = f32_nan"

definition per_tensor_example :: QTensor where
  "per_tensor_example =
     \<lparr>size0 = 4, qscheme = kPerTensorAffine, q_scale = f32_half, q_zero_point = 10,
      q_per_channel_scales = [], q_per_channel_zero_points = []\<rparr>"

definition per_channel_example :: QTensor where
  "per_channel_example =
     \<lparr>size0 = 2, qscheme = kPerChannelAffine, q_scale = f32_one, q_zero_point = 0,
      q_per_channel_scales = [f32_tenth, f32_fifth], q_per_channel_zero_points = [5, - 3]\<rparr>"

definition symmetric_example :: QTensor where
  "symmetric_example =
     \<lparr>size0 = 2, qscheme = kPerTensorSymmetric, q_scale = f32_half, q_zero_point = 10,
      q_per_channel_scales = [], q_per_channel_zero_points = []\<rparr>"

definition zero_point_200_example :: QTensor where
  "zero_point_200_example =
     \<lparr>size0 = 1, qscheme = kPerTensorAffine, q_scale = f32_half, q_zero_point = 200,
      q_per_channel_scales = [], q_per_channel_zero_points = []\<rparr>"

definition short_per_channel_example :: QTensor where
  "short_per_channel_example =
     \<lparr>size0 = 2, qscheme = kPerChannelAffine, q_scale = f32_one, q_zero_point = 0,
      q_per_channel_scales = [f32_tenth, f32_fifth], q_per_channel_zero_points = [5]\<rparr>"

definition f32_2p30 :: float32 where
  "f32_2p30 = Float32 False 157 0"


section \<open>Evaluating the model on literals\<close>

lemmas f32_eval =
  f32_div_def f32_mul_def Round_def nearbyint_def round_f32_def flog2_def blen.simps rne_def
  mant_def exp2_def is_nan_def is_inf_def is_zero_def f32_nan_def f32_inf_def f32_zero_def
  f32_to_int32_def f32_trunc_def Let_def

lemmas quantize_eval =
  QuantizeUint8_def max_i32_def min_i32_def word_sless_alt f32_eval

text \<open>The literals \<open>0.1f\<close> and \<open>0.2f\<close> are 1/10 and 1/5 rounded to binary32.\<close>

lemma tenth_and_fifth_literals:
  "round_f32 False 1 10 0 = f32_tenth" "round_f32 False 1 5 0 = f32_fifth"
  by (simp_all add: f32_tenth_def f32_fifth_def f32_eval)

section \<open>Integer lemmas\<close>

lemma ucast_i32_u8: "(ucast (r :: 32 word) :: 8 word) = word_of_int (sint r)"
proof -
  have "(ucast r :: 8 word) = ucast (word_of_int (sint r) :: 32 word)"
    by simp
  also have "\<dots> = word_of_int (sint r)"
    by (rule ucast_down_wi) (simp add: is_down)
  finally show ?thesis .
qed

lemma clamp_cast:
  "(ucast (min_i32 (max_i32 r 0) 255) :: 8 word) = word_of_int (clamp_u8 (sint r))"
proof -
  consider "sint r < 0" | "0 \<le> sint r" "sint r \<le> 255" | "255 < sint r" by linarith
  then show ?thesis
  proof cases
    case 1
    then show ?thesis
      by (simp add: min_i32_def max_i32_def clamp_u8_def word_sless_alt)
  next
    case 2
    then show ?thesis
      by (simp add: min_i32_def max_i32_def clamp_u8_def word_sless_alt ucast_i32_u8)
  next
    case 3
    then show ?thesis
      by (simp add: min_i32_def max_i32_def clamp_u8_def word_sless_alt)
  qed
qed

lemma Round_zero: "Round (f32_zero s) = f32_zero s"
  by (simp add: Round_def nearbyint_def is_zero_def f32_zero_def)

lemma to_int32_zero: "f32_to_int32 (f32_zero s) = Inr 0"
  by (simp add: f32_to_int32_def f32_trunc_def f32_zero_def is_nan_def is_inf_def mant_def exp2_def)

lemma sint_add_no_overflow:
  "in_int32 (sint (a :: 32 word) + sint b) \<Longrightarrow> sint (a + b) = sint a + sint b"
  by (simp add: in_int32_def sint_word_ariths signed_take_bit_int_eq_self)

lemma sint_word_of_int_32:
  "in_int32 n \<Longrightarrow> sint (word_of_int n :: 32 word) = n"
  by (simp add: in_int32_def sint_sbintrunc' signed_take_bit_int_eq_self)

section \<open>The loops\<close>

lemma store_loop_total:
  assumes "\<forall>j<n. rhs j = Inr (g j)" and "length buf = n" and "i \<le> n"
  shows "store_loop n rhs i buf = Inr (take i buf @ map g [i..<n])"
  using assms
proof (induction n rhs i buf rule: store_loop.induct)
  case (1 n rhs i buf)
  show ?case
  proof (cases "i < n")
    case True
    have step: "store_loop n rhs i buf = store_loop n rhs (Suc i) (buf[i := g i])"
      using True "1.prems"(1) by (subst store_loop.simps) simp
    have "store_loop n rhs (Suc i) (buf[i := g i]) =
            Inr (take (Suc i) (buf[i := g i]) @ map g [Suc i..<n])"
      using True "1.prems" by (intro "1.IH"[of "g i"]) simp_all
    moreover have "take (Suc i) (buf[i := g i]) = take i buf @ [g i]"
      using True "1.prems"(2) by (simp add: take_Suc_conv_app_nth)
    moreover have "[i..<n] = i # [Suc i..<n]"
      using True by (simp add: upt_conv_Cons)
    ultimately show ?thesis
      using step by simp
  next
    case False
    with "1.prems" have "i = n" by simp
    with "1.prems" show ?thesis
      by (subst store_loop.simps) simp
  qed
qed

lemma store_loop_fill:
  assumes "\<forall>j<n. rhs j = Inr (g j)"
  shows "store_loop n rhs 0 (empty_cpu n mem) = Inr (map g [0..<n])"
  using store_loop_total [OF assms, of "empty_cpu n mem" 0] by (simp add: empty_cpu_def)

lemma requant_loop_eq:
  assumes "length r = length ws" and "i \<le> length ws"
  shows "requant_loop ws a b i r = take i r @ map (\<lambda>w. f32_div (f32_mul w a) b) (drop i ws)"
  using assms
proof (induction ws a b i r rule: requant_loop.induct)
  case (1 ws a b i r)
  show ?case
  proof (cases "i < length ws")
    case True
    let ?v = "f32_div (f32_mul (ws ! i) a) b"
    have step: "requant_loop ws a b i r = requant_loop ws a b (Suc i) (r[i := ?v])"
      using True by (subst requant_loop.simps) simp
    have "requant_loop ws a b (Suc i) (r[i := ?v]) =
            take (Suc i) (r[i := ?v]) @ map (\<lambda>w. f32_div (f32_mul w a) b) (drop (Suc i) ws)"
      using True "1.prems" by (intro "1.IH") simp_all
    moreover have "take (Suc i) (r[i := ?v]) = take i r @ [?v]"
      using True "1.prems"(1) by (simp add: take_Suc_conv_app_nth)
    moreover have "drop i ws = ws ! i # drop (Suc i) ws"
      using True by (simp add: Cons_nth_drop_Suc)
    ultimately show ?thesis
      using step by simp
  next
    case False
    with "1.prems" show ?thesis
      by (subst requant_loop.simps) simp
  qed
qed

lemma generate_requantization_scales_map:
  "generate_requantization_scales ws a b = map (\<lambda>w. f32_div (f32_mul w a) b) ws"
  by (simp add: generate_requantization_scales_def requant_loop_eq)

section \<open>Rounding to an integral value\<close>

lemma blen_bounds: "0 < k \<Longrightarrow> 2 ^ (blen k - 1) \<le> k \<and> k < 2 ^ blen k"
proof (induction k rule: blen.induct)
  case (1 n)
  show ?case
  proof (cases "n div 2 = 0")
    case True
    with "1.prems" have "n = 1" by (simp add: div_eq_0_iff) 
    then show ?thesis by (simp add: blen.simps)
  next
    case False
    then have pos: "0 < n div 2" by simp
    with "1.IH" "1.prems" have IH: "2 ^ (blen (n div 2) - 1) \<le> n div 2" "n div 2 < 2 ^ blen (n div 2)"
      by simp_all
    have b: "blen n = Suc (blen (n div 2))"
      using "1.prems" by (subst blen.simps) simp
    have "0 < blen (n div 2)"
      using pos by (subst blen.simps) simp
    then obtain c where c: "blen (n div 2) = Suc c"
      by (cases "blen (n div 2)") simp_all
    from IH c have "2 * 2 ^ c \<le> n" "n < 2 * 2 ^ Suc c"
      by simp_all
    then show ?thesis
      by (simp add: b c)
  qed
qed

lemma blen_pos: "0 < k \<Longrightarrow> 0 < blen k"
  by (subst blen.simps) simp

lemma blen_le: "k < 2 ^ b \<Longrightarrow> blen k \<le> b"
proof (rule ccontr)
  assume k: "k < 2 ^ b" and "\<not> blen k \<le> b"
  then have "b \<le> blen k - 1" and "0 < k"
    by (auto simp: blen.simps[of 0] intro: gr0I)
  then have "(2::nat) ^ b \<le> 2 ^ (blen k - 1)"
    by (intro power_increasing) simp_all
  also have "\<dots> \<le> k"
    using blen_bounds[OF \<open>0 < k\<close>] by simp
  finally show False
    using k by simp
qed

lemma rne_one: "rne n (Suc 0) = n"
  by (simp add: rne_def)

lemma rne_le: "0 < d \<Longrightarrow> rne n d \<le> n div d + 1"
  by (simp add: rne_def Let_def)

lemma blen_one: "blen (Suc 0) = Suc 0"
  by (simp add: blen.simps)

lemma flog2_one:
  assumes "0 < k"
  shows "flog2 k 1 = int (blen k) - 1"
proof -
  obtain c where c: "blen k = Suc c"
    using blen_pos[OF assms] by (cases "blen k") simp_all
  have "2 ^ c \<le> k"
    using blen_bounds[OF assms] by (simp add: c)
  then show ?thesis
    by (simp add: flog2_def blen_one c Let_def)
qed

lemma decode_normal:
  assumes "0 < e" and "e < 255" and "f < 2 ^ 23"
  shows "mant (Float32 s (of_nat e) (of_nat f)) = 2 ^ 23 + f"
    and "exp2 (Float32 s (of_nat e) (of_nat f)) = int e - 150"
    and "\<not> is_nan (Float32 s (of_nat e) (of_nat f))"
    and "\<not> is_inf (Float32 s (of_nat e) (of_nat f))"
    and "\<not> is_zero (Float32 s (of_nat e) (of_nat f))"
proof -
  have e: "unat (of_nat e :: 8 word) = e"
    using assms by (simp add: unat_of_nat)
  have f: "unat (of_nat f :: 23 word) = f"
    using assms by (simp add: unat_of_nat)
  have ne0: "(of_nat e :: 8 word) \<noteq> 0"
    using e assms(1) by (metis unat_0 less_numeral_extra(3))
  have ne255: "(of_nat e :: 8 word) \<noteq> 255"
  proof
    assume "(of_nat e :: 8 word) = 255"
    then have "unat (of_nat e :: 8 word) = 255" by simp
    with e assms(2) show False by simp
  qed
  show "mant (Float32 s (of_nat e) (of_nat f)) = 2 ^ 23 + f"
    using ne0 f by (simp add: mant_def)
  show "exp2 (Float32 s (of_nat e) (of_nat f)) = int e - 150"
    using ne0 e by (simp add: exp2_def)
  show "\<not> is_nan (Float32 s (of_nat e) (of_nat f))"
    using ne255 by (simp add: is_nan_def)
  show "\<not> is_inf (Float32 s (of_nat e) (of_nat f))"
    using ne255 by (simp add: is_inf_def)
  show "\<not> is_zero (Float32 s (of_nat e) (of_nat f))"
    using ne0 by (simp add: is_zero_def)
qed

lemma round_f32_normal:
  assumes "max (flog2 n d + e - 23) (- 149) = q"
    and "rne (n * 2 ^ nat (e - q)) (d * 2 ^ nat (- (e - q))) = m"
    and "2 ^ 23 \<le> m" and "m < 2 ^ 24" and "q + 150 < 255"
  shows "round_f32 s n d e = Float32 s (of_nat (nat (q + 150))) (of_nat (m - 2 ^ 23))"
  unfolding round_f32_def Let_def assms(1) assms(2)
  using assms(3-5) by simp

lemma round_f32_int:
  assumes "0 < k" and "k < 2 ^ 24"
  shows "round_f32 s k 1 0 =
           Float32 s (of_nat (blen k + 126)) (of_nat (k * 2 ^ (24 - blen k) - 2 ^ 23))"
    and "2 ^ 23 \<le> k * 2 ^ (24 - blen k)" and "k * 2 ^ (24 - blen k) < 2 ^ 24"
proof -
  obtain c where c: "blen k = Suc c"
    using blen_pos[OF assms(1)] by (cases "blen k") simp_all
  have c23: "c \<le> 23"
    using blen_le[OF assms(2)] c by simp
  have lo: "2 ^ c \<le> k" and hi: "k < 2 * 2 ^ c"
    using blen_bounds[OF assms(1)] by (simp_all add: c)
  have split: "(2::nat) ^ c * 2 ^ (23 - c) = 2 ^ 23"
    using c23 by (simp flip: power_add)
  have "2 ^ c * 2 ^ (23 - c) \<le> k * 2 ^ (23 - c)"
    using lo by (rule mult_le_mono1)
  then have "2 ^ 23 \<le> k * 2 ^ (23 - c)"
    unfolding split .
  then show m_lo: "2 ^ 23 \<le> k * 2 ^ (24 - blen k)"
    by (simp add: c)
  have "k * 2 ^ (23 - c) < (2 * 2 ^ c) * 2 ^ (23 - c)"
    using hi by simp
  also have "\<dots> = 2 * (2 ^ c * 2 ^ (23 - c))"
    by simp
  also have "\<dots> = 2 ^ 24"
    unfolding split by simp
  finally show m_hi: "k * 2 ^ (24 - blen k) < 2 ^ 24"
    by (simp add: c)
  have q: "max (flog2 k 1 + 0 - 23) (- 149) = int c - 23"
    using flog2_one[OF assms(1)] by (simp add: c)
  have m: "rne (k * 2 ^ nat (0 - (int c - 23))) (1 * 2 ^ nat (- (0 - (int c - 23)))) = k * 2 ^ (23 - c)"
    using c23 by (simp add: rne_one nat_diff_distrib)
  have "round_f32 s k 1 0 =
          Float32 s (of_nat (nat (int c - 23 + 150))) (of_nat (k * 2 ^ (23 - c) - 2 ^ 23))"
    using m_lo m_hi c23 by (intro round_f32_normal[OF q m]) (simp_all add: c)
  moreover have "nat (int c - 23 + 150) = blen k + 126"
    by (simp add: c)
  ultimately show "round_f32 s k 1 0 =
           Float32 s (of_nat (blen k + 126)) (of_nat (k * 2 ^ (24 - blen k) - 2 ^ 23))"
    by (simp add: c)
qed

lemma trunc_round_f32_int:
  assumes "0 < k" and "k < 2 ^ 24"
  shows "f32_trunc (round_f32 s k 1 0) = (if s then - int k else int k)"
    and "\<not> is_nan (round_f32 s k 1 0)" and "\<not> is_inf (round_f32 s k 1 0)"
proof -
  let ?m = "k * 2 ^ (24 - blen k)"
  let ?x = "Float32 s (of_nat (blen k + 126)) (of_nat (?m - 2 ^ 23)) :: float32"
  note r = round_f32_int[OF assms]
  have b24: "blen k \<le> 24"
    using blen_le[OF assms(2)] .
  have side: "0 < blen k + 126" "blen k + 126 < 255" "?m - 2 ^ 23 < 2 ^ 23"
    using r(2,3) b24 by simp_all
  note d = decode_normal[OF side, of s]
  have mant: "mant ?x = ?m"
    using d(1) r(2) by simp
  have expo: "exp2 ?x = int (blen k) - 24"
    using d(2) by simp
  show "\<not> is_nan (round_f32 s k 1 0)"
    unfolding r(1) by (rule d(3))
  show "\<not> is_inf (round_f32 s k 1 0)"
    unfolding r(1) by (rule d(4))
  have "f32_trunc ?x = (if s then - int k else int k)"
  proof (cases "blen k = 24")
    case True
    then show ?thesis
      unfolding f32_trunc_def Let_def mant expo by simp
  next
    case False
    with b24 have "blen k < 24" by simp
    then have "nat (- (int (blen k) - 24)) = 24 - blen k"
      by simp
    with \<open>blen k < 24\<close> show ?thesis
      unfolding f32_trunc_def Let_def mant expo by simp
  qed
  then show "f32_trunc (round_f32 s k 1 0) = (if s then - int k else int k)"
    unfolding r(1) .
qed

lemma mant_less: "mant x < 2 ^ 24"
proof -
  have "unat (f_frac x) < 2 ^ 23"
    using unsigned_less[of "f_frac x"] by simp
  then show ?thesis
    by (simp add: mant_def)
qed

lemma rhe_of_int: "round_half_even (of_int n) = n"
  by (simp add: round_half_even_def)

lemma rhe_quot:
  assumes "0 < d"
  shows "round_half_even (real n / real d) = int (rne n d)"
proof -
  have fl: "\<lfloor>real n / real d\<rfloor> = int (n div d)"
    by (simp add: floor_divide_of_nat_eq)
  have "real n = real (n div d) * real d + real (n mod d)"
    by (simp flip: of_nat_mult of_nat_add)
  then have fr: "real n / real d - of_int (int (n div d)) = real (n mod d) / real d"
    using assms by (simp add: field_simps)
  have "real (n mod d) / real d < 1 / 2 \<longleftrightarrow> real (2 * (n mod d)) < real d"
    using assms by (simp add: divide_less_eq mult.commute)
  then have lt: "real (n mod d) / real d < 1 / 2 \<longleftrightarrow> 2 * (n mod d) < d"
    unfolding of_nat_less_iff .
  have "1 / 2 < real (n mod d) / real d \<longleftrightarrow> real d < real (2 * (n mod d))"
    using assms by (simp add: less_divide_eq mult.commute)
  then have gt: "1 / 2 < real (n mod d) / real d \<longleftrightarrow> d < 2 * (n mod d)"
    unfolding of_nat_less_iff .
  show ?thesis
    unfolding round_half_even_def Let_def fl fr lt gt rne_def
    by simp
qed

lemma rhe_minus: "round_half_even (- r) = - round_half_even r"
proof (cases "r = of_int \<lfloor>r\<rfloor>")
  case True
  then obtain n where "r = of_int n" ..
  then show ?thesis
    by (simp add: rhe_of_int flip: of_int_minus)
next
  case False
  then have fl: "\<lfloor>- r\<rfloor> = - \<lfloor>r\<rfloor> - 1"
    by (simp add: floor_minus ceiling_altdef)
  have pos: "0 < r - of_int \<lfloor>r\<rfloor>"
    using False by (metis diff_gt_0_iff_gt of_int_floor_le order_le_less)
  show ?thesis
    unfolding round_half_even_def Let_def fl
    using pos by (auto simp: field_simps)
qed

lemma valof_integral: "0 \<le> exp2 x \<Longrightarrow> valof x = of_int (f32_trunc x)"
  by (simp add: valof_def f32_trunc_def power_int_def Let_def)

lemma valof_fraction:
  "exp2 x < 0 \<Longrightarrow>
     valof x = (if f_sign x then - 1 else 1) * (real (mant x) / real (2 ^ nat (- exp2 x)))"
  by (simp add: valof_def power_int_def field_simps)

lemma rne_half_bound:
  assumes "n < 2 ^ 24" and "0 < j"
  shows "rne n (2 ^ j) < 2 ^ 24"
proof -
  have "(2::nat) ^ 1 \<le> 2 ^ j"
    using assms(2) by (intro power_increasing) simp_all
  then have "n div 2 ^ j \<le> n div 2"
    by (intro div_le_mono2) simp_all
  moreover have "rne n (2 ^ j) \<le> n div 2 ^ j + 1"
    by (rule rne_le) simp
  ultimately show ?thesis
    using assms(1) by simp
qed

lemma trunc_zero: "is_zero x \<Longrightarrow> f32_trunc x = 0"
  by (simp add: is_zero_def f32_trunc_def mant_def exp2_def)

lemma valof_zero: "is_zero x \<Longrightarrow> valof x = 0"
  by (simp add: is_zero_def valof_def mant_def)

lemma f32_zero_props:
  "is_zero (f32_zero s)" "\<not> is_nan (f32_zero s)" "\<not> is_inf (f32_zero s)"
  by (simp_all add: f32_zero_def is_zero_def is_nan_def is_inf_def)

lemma Round_correct:
  assumes "\<not> is_nan x" and "\<not> is_inf x"
  shows "f32_trunc (Round x) = round_half_even (valof x)"
    and "\<not> is_nan (Round x)" and "\<not> is_inf (Round x)"
proof -
  consider (zero) "is_zero x" | (integral) "\<not> is_zero x" "0 \<le> exp2 x"
    | (fraction) "\<not> is_zero x" "exp2 x < 0"
    by linarith
  then have "f32_trunc (Round x) = round_half_even (valof x)
      \<and> \<not> is_nan (Round x) \<and> \<not> is_inf (Round x)"
  proof cases
    case zero
    then have "Round x = x"
      by (simp add: Round_def nearbyint_def)
    with zero assms show ?thesis
      by (simp add: trunc_zero valof_zero round_half_even_def)
  next
    case integral
    then have "Round x = x"
      by (simp add: Round_def nearbyint_def)
    with integral assms show ?thesis
      by (simp add: valof_integral rhe_of_int)
  next
    case fraction
    define j where "j = nat (- exp2 x)"
    define k where "k = rne (mant x) (2 ^ j)"
    have j: "0 < j"
      using fraction(2) by (simp add: j_def)
    have R: "Round x = (if k = 0 then f32_zero (f_sign x) else round_f32 (f_sign x) k 1 0)"
      using fraction assms by (simp add: Round_def nearbyint_def Let_def k_def j_def)
    have "round_half_even (real (mant x) / real (2 ^ j)) = int k"
      unfolding k_def by (rule rhe_quot) simp
    then have V: "round_half_even (valof x) = (if f_sign x then - int k else int k)"
      using fraction(2) by (simp add: valof_fraction rhe_minus flip: j_def)
    show ?thesis
    proof (cases "k = 0")
      case True
      then show ?thesis
        by (simp add: R V f32_zero_props trunc_zero)
    next
      case False
      then have "0 < k" by simp
      moreover have "k < 2 ^ 24"
        unfolding k_def using mant_less j by (rule rne_half_bound)
      ultimately have
        "f32_trunc (round_f32 (f_sign x) k 1 0) = (if f_sign x then - int k else int k)"
        "\<not> is_nan (round_f32 (f_sign x) k 1 0)" "\<not> is_inf (round_f32 (f_sign x) k 1 0)"
        by (rule trunc_round_f32_int)+
      then show ?thesis
        using False by (simp add: R V)
    qed
  qed
  then show "f32_trunc (Round x) = round_half_even (valof x)"
    and "\<not> is_nan (Round x)" and "\<not> is_inf (Round x)"
    by simp_all
qed

section \<open>The quantizer, characterised\<close>

lemma f32_div_zero:
  "\<not> is_nan scale \<Longrightarrow> \<not> is_zero scale \<Longrightarrow>
     f32_div (f32_zero False) scale = f32_zero (f_sign scale)"
  by (cases scale)
     (auto simp: f32_div_def f32_zero_def is_nan_def is_inf_def is_zero_def Let_def)

lemma Quantize_zero:
  "\<not> is_nan scale \<Longrightarrow> \<not> is_zero scale \<Longrightarrow>
     QuantizeUint8 scale zp (f32_zero False) = Inr (word_of_int (clamp_u8 (sint zp)))"
  by (simp add: QuantizeUint8_def f32_div_zero Round_zero to_int32_zero clamp_cast)

lemma Round_nonfinite: "is_nan x \<or> is_inf x \<Longrightarrow> Round x = x"
  by (auto simp: Round_def nearbyint_def)

lemma to_int32_Round:
  "f32_to_int32 (Round q) =
     (if \<not> is_nan q \<and> \<not> is_inf q \<and> in_int32 (round_half_even (valof q))
      then Inr (word_of_int (round_half_even (valof q))) else Inl CastOutOfRange)"
proof (cases "is_nan q \<or> is_inf q")
  case True
  then show ?thesis
    by (auto simp: Round_nonfinite f32_to_int32_def)
next
  case False
  then show ?thesis
    by (simp add: f32_to_int32_def Round_correct in_int32_def)
qed

lemma QuantizeUint8_unfold:
  "QuantizeUint8 scale zp val =
     (if \<not> is_nan (f32_div val scale) \<and> \<not> is_inf (f32_div val scale)
         \<and> in_int32 (round_half_even (valof (f32_div val scale)))
      then Inr (ucast (min_i32 (max_i32
             (zp + word_of_int (round_half_even (valof (f32_div val scale)))) 0) 255))
      else Inl CastOutOfRange)"
  by (simp add: QuantizeUint8_def to_int32_Round)

lemma QuantizeUint8_clamp:
  assumes "\<not> is_nan (f32_div val scale)" and "\<not> is_inf (f32_div val scale)"
    and "in_int32 (round_half_even (valof (f32_div val scale)))"
    and "in_int32 (sint zp + round_half_even (valof (f32_div val scale)))"
  shows "QuantizeUint8 scale zp val =
           Inr (word_of_int (clamp_u8 (sint zp + round_half_even (valof (f32_div val scale)))))"
proof -
  let ?n = "round_half_even (valof (f32_div val scale))"
  have "sint (zp + word_of_int ?n) = sint zp + ?n"
    using assms(3,4) by (simp add: sint_add_no_overflow sint_word_of_int_32)
  then show ?thesis
    using assms(1-3) by (simp add: QuantizeUint8_unfold clamp_cast)
qed

lemma valof_2p31: "valof f32_2p31 = 2147483648"
  by (simp add: valof_def f32_2p31_def mant_def exp2_def power_int_def)

lemma valof_2p30: "valof f32_2p30 = 1073741824"
  by (simp add: valof_def f32_2p30_def mant_def exp2_def power_int_def)

lemma rhe_numeral: "round_half_even (numeral n) = numeral n"
  using rhe_of_int[of "numeral n"] by simp

lemma div_2p31_one: "f32_div f32_2p31 f32_one = f32_2p31"
  by (simp add: f32_2p31_def f32_one_def f32_eval)

lemma div_2p30_one: "f32_div f32_2p30 f32_one = f32_2p30"
  by (simp add: f32_2p30_def f32_one_def f32_eval)

lemma finite_2p31: "\<not> is_nan f32_2p31" "\<not> is_inf f32_2p31"
  by (simp_all add: f32_2p31_def is_nan_def is_inf_def)

lemma finite_2p30: "\<not> is_nan f32_2p30" "\<not> is_inf f32_2p30"
  by (simp_all add: f32_2p30_def is_nan_def is_inf_def)

lemma pos_one: "f32_pos f32_one"
  by (simp add: f32_pos_def f32_one_def is_nan_def is_zero_def)

section \<open>The claims about the quantizer\<close>

text \<open>
  C1, as the code has it. Let \<open>q\<close> be the float quotient \<open>value / scale\<close> and \<open>n\<close> the
  integer nearest to it (ties to even). Whenever \<open>q\<close> is finite, \<open>n\<close> is an
  \<open>int32_t\<close> value and so is \<open>zero_point + n\<close>, \<open>QuantizeUint8\<close> returns
  \<open>zero_point + n\<close> clamped into \<open>[0, 255]\<close>: 255 when the sum exceeds 255, 0 when it
  is negative. The sign of the scale plays no part.
\<close>

theorem QuantizeUint8_saturates:
  assumes "\<not> is_nan (f32_div val scale)" and "\<not> is_inf (f32_div val scale)"
    and "in_int32 (round_half_even (valof (f32_div val scale)))"
    and "in_int32 (sint zero_point + round_half_even (valof (f32_div val scale)))"
  shows "QuantizeUint8 scale zero_point val =
           Inr (word_of_int (clamp_u8
             (sint zero_point + round_half_even (valof (f32_div val scale)))))
         \<and> (255 < sint zero_point + round_half_even (valof (f32_div val scale))
              \<longrightarrow> QuantizeUint8 scale zero_point val = Inr 255)
         \<and> (sint zero_point + round_half_even (valof (f32_div val scale)) < 0
              \<longrightarrow> QuantizeUint8 scale zero_point val = Inr 0)"
  using QuantizeUint8_clamp[OF assms] by (simp add: clamp_u8_def)

theorem QuantizeUint8_saturates_witness:
  "\<not> is_nan (f32_div f32_2p30 f32_one) \<and> \<not> is_inf (f32_div f32_2p30 f32_one)
   \<and> in_int32 (round_half_even (valof (f32_div f32_2p30 f32_one)))
   \<and> in_int32 (sint (7 :: 32 word) + round_half_even (valof (f32_div f32_2p30 f32_one)))
   \<and> 255 < sint (7 :: 32 word) + round_half_even (valof (f32_div f32_2p30 f32_one))
   \<and> QuantizeUint8 f32_one 7 f32_2p30 = Inr 255"
proof -
  have n: "round_half_even (valof (f32_div f32_2p30 f32_one)) = 1073741824"
    by (simp add: div_2p30_one valof_2p30 rhe_numeral)
  have h: "\<not> is_nan (f32_div f32_2p30 f32_one)" "\<not> is_inf (f32_div f32_2p30 f32_one)"
      "in_int32 (round_half_even (valof (f32_div f32_2p30 f32_one)))"
      "in_int32 (sint (7 :: 32 word) + round_half_even (valof (f32_div f32_2p30 f32_one)))"
    unfolding n by (simp_all add: div_2p30_one finite_2p30 in_int32_def)
  have big: "255 < sint (7 :: 32 word) + round_half_even (valof (f32_div f32_2p30 f32_one))"
    unfolding n by simp
  from QuantizeUint8_saturates[OF h] big
  have "QuantizeUint8 f32_one 7 f32_2p30 = Inr 255"
    by blast
  with h big show ?thesis
    by blast
qed

text \<open>
  The last hypothesis cannot be dropped: the sum is formed in \<open>int32_t\<close>. With zero
  point 2^31 - 1 and quotient 1 the model's two's-complement addition wraps to
  -2^31 and the clamp gives 0 (in C++ that overflow is itself undefined).
\<close>

lemma QuantizeUint8_sum_out_of_range:
  "QuantizeUint8 f32_one 2147483647 f32_one = Inr 0"
  by (simp add: f32_one_def quantize_eval)

text \<open>
  C1 as stated, for every positive scale and every value, fails: at scale 1.0, zero
  point 0 and value 2^31 the rounded quotient is 2^31, far above 255, yet the result
  is not 255. The conversion \<open>static_cast<int32_t>\<close> is undefined there.
\<close>

theorem QuantizeUint8_saturates_counterexample:
  "f32_pos f32_one
   \<and> \<not> is_nan (f32_div f32_2p31 f32_one) \<and> \<not> is_inf (f32_div f32_2p31 f32_one)
   \<and> 255 < sint (0 :: 32 word) + round_half_even (valof (f32_div f32_2p31 f32_one))
   \<and> QuantizeUint8 f32_one 0 f32_2p31 = Inl CastOutOfRange"
proof -
  have n: "round_half_even (valof (f32_div f32_2p31 f32_one)) = 2147483648"
    by (simp add: div_2p31_one valof_2p31 rhe_numeral)
  have "QuantizeUint8 f32_one 0 f32_2p31 = Inl CastOutOfRange"
    unfolding QuantizeUint8_unfold n by (simp add: in_int32_def)
  moreover have "255 < sint (0 :: 32 word) + round_half_even (valof (f32_div f32_2p31 f32_one))"
    unfolding n by simp
  ultimately show ?thesis
    by (simp add: pos_one div_2p31_one finite_2p31)
qed

lemma quantize_half: "QuantizeUint8 f32_one 0 f32_half = Inr 0"
  by (simp add: f32_one_def f32_half_def quantize_eval)

lemma quantize_one_and_half: "QuantizeUint8 f32_one 0 f32_one_and_half = Inr 2"
  by (simp add: f32_one_def f32_one_and_half_def quantize_eval)

lemma quantize_three: "QuantizeUint8 f32_one 10 f32_three = Inr 13"
  by (simp add: f32_one_def f32_three_def quantize_eval)

lemma valof_quotients:
  "valof (f32_div f32_half f32_one) = 1 / 2"
  "valof (f32_div f32_one_and_half f32_one) = 3 / 2"
  "valof (f32_div f32_three f32_one) = 3"
  by (simp_all add: f32_one_def f32_half_def f32_one_and_half_def f32_three_def f32_eval
      valof_def power_int_def power_divide)

text \<open>
  C2. \<open>QuantizeUint8\<close> rounds the float quotient \<open>value / scale\<close> to the nearest
  integer with ties to even and then adds the zero point: whenever the quotient is
  finite and the rounded integer is an \<open>int32_t\<close> value, the result is the clamp of
  \<open>zero_point + round_half_even (value / scale)\<close>, and otherwise the conversion is
  undefined. At scale 1.0 the values 0.5, 1.5 and 3.0 (the last with zero point 10) give
  0, 2 and 13: the quotients are exactly 1/2, 3/2 and 3, so truncation would give 1 for
  the second and rounding half up would give 1 for the first.
\<close>

theorem QuantizeUint8_rounds_half_even:
  "QuantizeUint8 scale zero_point val =
     (if \<not> is_nan (f32_div val scale) \<and> \<not> is_inf (f32_div val scale)
         \<and> in_int32 (round_half_even (valof (f32_div val scale)))
      then Inr (ucast (min_i32 (max_i32
             (zero_point + word_of_int (round_half_even (valof (f32_div val scale)))) 0) 255))
      else Inl CastOutOfRange)
   \<and> valof (f32_div f32_half f32_one) = 1 / 2
   \<and> QuantizeUint8 f32_one 0 f32_half = Inr 0
   \<and> valof (f32_div f32_one_and_half f32_one) = 3 / 2
   \<and> QuantizeUint8 f32_one 0 f32_one_and_half = Inr 2
   \<and> valof (f32_div f32_three f32_one) = 3
   \<and> QuantizeUint8 f32_one 10 f32_three = Inr 13"
  using QuantizeUint8_unfold[of scale zero_point val]
  by (simp only: valof_quotients quantize_half quantize_one_and_half quantize_three simp_thms)

section \<open>The claims about the activation limits\<close>

lemma u8_le_255: "(w :: 8 word) \<le> 255"
proof -
  have "(255 :: 8 word) = - 1"
    by simp
  then show ?thesis
    by (simp only: word_n1_ge)
qed

lemma NONE_neq_RELU: "NONE \<noteq> RELU"
  by (simp add: NONE_def RELU_def)

lemma activationLimits_NONE: "activationLimits scale zp NONE = Inr (0, 255)"
  by (simp add: activationLimits_def)

lemma activationLimits_RELU:
  "activationLimits scale zp RELU =
     (case QuantizeUint8 scale zp (f32_zero False) of
        Inl e \<Rightarrow> Inl e
      | Inr lo \<Rightarrow> Inr (lo, 255))"
  using NONE_neq_RELU by (simp add: activationLimits_def)

lemma tenth_props: "f32_pos f32_tenth" "\<not> is_nan f32_tenth" "\<not> is_zero f32_tenth"
  by (simp_all add: f32_pos_def f32_tenth_def is_nan_def is_zero_def)

lemma quantize_tenth_zero: "QuantizeUint8 f32_tenth 50 (f32_zero False) = Inr 50"
  by (simp add: Quantize_zero tenth_props clamp_u8_def)

text \<open>
  C3. For every scale and zero point, kind \<open>NONE\<close> gives \<open>(0, 255)\<close> and kind \<open>RELU\<close>
  gives \<open>(QuantizeUint8(scale, zero_point, 0.0), 255)\<close>, undefined exactly when that
  call of the quantizer is; at scale 0.1 and zero point 50 the quantizer gives 50 and
  the limits are \<open>(50, 255)\<close>.
\<close>

theorem activationLimits_by_kind:
  "activationLimits scale zero_point NONE = Inr (0, 255)
   \<and> activationLimits scale zero_point RELU =
       (case QuantizeUint8 scale zero_point (f32_zero False) of
          Inl e \<Rightarrow> Inl e
        | Inr lo \<Rightarrow> Inr (lo, 255))
   \<and> QuantizeUint8 f32_tenth 50 (f32_zero False) = Inr 50
   \<and> activationLimits f32_tenth 50 RELU = Inr (50, 255)
   \<and> activationLimits f32_tenth 50 NONE = Inr (0, 255)"
  by (simp add: activationLimits_NONE activationLimits_RELU quantize_tenth_zero)

text \<open>
  C7, as the code has it. For a kind other than \<open>NONE\<close> and \<open>RELU\<close> the \<open>switch\<close>
  reaches \<open>__builtin_unreachable()\<close>: the behaviour is undefined, and nothing is
  asserted, thrown or aborted.
\<close>

theorem activationLimits_other_kind:
  "Ac \<noteq> NONE \<Longrightarrow> Ac \<noteq> RELU \<Longrightarrow>
     activationLimits scale zero_point Ac = Inl Unreachable \<and> \<not> explicit_failure Unreachable"
  by (simp add: activationLimits_def)

theorem activationLimits_other_kind_witness:
  "(2 :: Activation) \<noteq> NONE \<and> (2 :: Activation) \<noteq> RELU
   \<and> activationLimits f32_one 0 2 = Inl Unreachable \<and> \<not> explicit_failure Unreachable"
proof -
  have h: "(2 :: Activation) \<noteq> NONE" "(2 :: Activation) \<noteq> RELU"
    by (simp_all add: NONE_def RELU_def)
  from activationLimits_other_kind[OF h, of f32_one 0] h show ?thesis
    by blast
qed

text \<open>
  C7 as stated fails: at kind 2 the outcome is the undefined behaviour of the
  unreachable mark, which is not a failure the program raises.
\<close>

theorem activationLimits_other_kind_counterexample:
  "activationLimits f32_one 0 2 = Inl Unreachable \<and> \<not> explicit_failure Unreachable"
  by (simp add: activationLimits_def NONE_def RELU_def)

text \<open>
  C9. Whatever limits \<open>activationLimits\<close> returns, the lower one is at most the upper
  one; and it does return limits for kind \<open>NONE\<close> always, and for kind \<open>RELU\<close> whenever
  the scale is neither a NaN nor zero.
\<close>

theorem activationLimits_ordered:
  "(activationLimits scale zero_point Ac = Inr (lo, hi) \<longrightarrow> lo \<le> hi)
   \<and> (Ac = NONE \<or> Ac = RELU \<and> \<not> is_nan scale \<and> \<not> is_zero scale \<longrightarrow>
        (\<exists>lo hi. activationLimits scale zero_point Ac = Inr (lo, hi) \<and> lo \<le> hi))"
proof -
  have "lo \<le> hi" if "activationLimits scale zero_point Ac = Inr (lo, hi)"
  proof -
    from that have "hi = 255"
      by (auto simp: activationLimits_def split: if_splits sum.splits)
    then show ?thesis
      by (simp add: u8_le_255)
  qed
  moreover have "\<exists>lo hi. activationLimits scale zero_point NONE = Inr (lo, hi) \<and> lo \<le> hi"
    by (simp add: activationLimits_NONE)
  moreover have "\<exists>lo hi. activationLimits scale zero_point RELU = Inr (lo, hi) \<and> lo \<le> hi"
    if "\<not> is_nan scale" "\<not> is_zero scale"
  proof -
    have "activationLimits scale zero_point RELU =
            Inr (word_of_int (clamp_u8 (sint zero_point)), 255)"
      using that by (simp add: activationLimits_RELU Quantize_zero)
    then show ?thesis
      by (simp add: u8_le_255)
  qed
  ultimately show ?thesis
    by blast
qed

theorem activationLimits_ordered_witness:
  "activationLimits f32_tenth 50 RELU = Inr (50, 255) \<and> (50 :: 8 word) \<le> 255
   \<and> \<not> is_nan f32_tenth \<and> \<not> is_zero f32_tenth
   \<and> (\<exists>lo hi. activationLimits f32_tenth 50 RELU = Inr (lo, hi) \<and> lo \<le> hi)"
proof -
  have r: "activationLimits f32_tenth 50 RELU = Inr (50, 255)"
    by (simp add: activationLimits_RELU quantize_tenth_zero)
  from activationLimits_ordered[of f32_tenth 50 RELU 50 255] r tenth_props show ?thesis
    by blast
qed

text \<open>
  C10. For every positive scale and every zero point, the lower limit for kind \<open>RELU\<close>
  is the zero point clamped into \<open>[0, 255]\<close>: \<open>0.0 / scale\<close> is zero and rounds to zero,
  so two positive scales give the same limits.
\<close>

theorem relu_lower_limit_is_clamped_zero_point:
  "f32_pos scale \<Longrightarrow>
     Round (f32_div (f32_zero False) scale) = f32_zero False
     \<and> activationLimits scale zero_point RELU =
         Inr (word_of_int (clamp_u8 (sint zero_point)), 255)
     \<and> (f32_pos scale' \<longrightarrow>
          activationLimits scale' zero_point RELU = activationLimits scale zero_point RELU)"
  by (simp add: f32_pos_def f32_div_zero Round_zero activationLimits_RELU Quantize_zero)

theorem relu_lower_limit_is_clamped_zero_point_witness:
  "f32_pos f32_tenth \<and> f32_pos f32_one
   \<and> activationLimits f32_tenth 300 RELU = Inr (255, 255)
   \<and> activationLimits f32_one 300 RELU = activationLimits f32_tenth 300 RELU"
proof -
  have p: "f32_pos f32_tenth" "f32_pos f32_one"
    by (simp_all add: tenth_props pos_one)
  from relu_lower_limit_is_clamped_zero_point[OF p(1), of 300 f32_one] p show ?thesis
    by (simp add: clamp_u8_def)
qed

section \<open>The claim about the requantization scales\<close>

lemma requant_one: "f32_div (f32_mul f32_one f32_half) f32_quarter = f32_two"
  by (simp add: f32_one_def f32_half_def f32_quarter_def f32_two_def f32_eval)

lemma requant_two: "f32_div (f32_mul f32_two f32_half) f32_quarter = f32_four"
  by (simp add: f32_two_def f32_half_def f32_quarter_def f32_four_def f32_eval)

text \<open>
  C4. The result of \<open>generate_requantization_scales\<close> has the length of the weight
  scales, and its element \<open>i\<close> is the float product \<open>weight_scales[i] * input_scale\<close>
  divided, as floats, by \<open>output_scale\<close>; the scales 1.0 and 2.0 with input scale 0.5
  and output scale 0.25 give 2.0 and 4.0.
\<close>

theorem generate_requantization_scales_formula:
  "length (generate_requantization_scales weight_scales input_scale output_scale)
     = length weight_scales
   \<and> (\<forall>i < length weight_scales.
        generate_requantization_scales weight_scales input_scale output_scale ! i
          = f32_div (f32_mul (weight_scales ! i) input_scale) output_scale)
   \<and> generate_requantization_scales [f32_one, f32_two] f32_half f32_quarter
        = [f32_two, f32_four]"
  by (simp add: generate_requantization_scales_map requant_one requant_two)

theorem generate_requantization_scales_formula_witness:
  "(1 :: nat) < length [f32_one, f32_two]
   \<and> generate_requantization_scales [f32_one, f32_two] f32_half f32_quarter ! 1 = f32_four
   \<and> length (generate_requantization_scales [f32_one, f32_two] f32_half f32_quarter) = 2"
  using generate_requantization_scales_formula[of "[f32_one, f32_two]" f32_half f32_quarter]
  by (simp add: requant_two)

section \<open>The claims about the zero points and scales\<close>

lemma make_per_tensor:
  assumes "qscheme t = kPerTensorAffine"
  shows "make_zero_points_and_scales_tensor t zp_mem scale_mem =
           Inr (replicate (size0 t) (word_of_int (q_zero_point t + 128)),
                replicate (size0 t) (q_scale t))"
proof -
  have "store_loop (size0 t) (\<lambda>i. Inr (word_of_int (q_zero_point t + 128) :: 8 word)) 0
          (empty_cpu (size0 t) zp_mem)
        = Inr (map (\<lambda>i. word_of_int (q_zero_point t + 128)) [0..<size0 t])"
    by (rule store_loop_fill) simp
  moreover have "store_loop (size0 t) (\<lambda>i. Inr (q_scale t)) 0 (empty_cpu (size0 t) scale_mem)
        = Inr (map (\<lambda>i. q_scale t) [0..<size0 t])"
    by (rule store_loop_fill) simp
  ultimately show ?thesis
    using assms by (simp add: make_zero_points_and_scales_tensor_def map_replicate_const Let_def)
qed

lemma make_per_channel:
  assumes "qscheme t = kPerChannelAffine"
    and "length (q_per_channel_zero_points t) = size0 t"
    and "length (q_per_channel_scales t) = size0 t"
  shows "make_zero_points_and_scales_tensor t zp_mem scale_mem =
           Inr (map (\<lambda>z. ucast (z + 128)) (q_per_channel_zero_points t),
                q_per_channel_scales t)"
proof -
  let ?zps = "q_per_channel_zero_points t" and ?scs = "q_per_channel_scales t"
  have "store_loop (size0 t)
          (\<lambda>i. case item ?zps i of Inl e \<Rightarrow> Inl e | Inr z \<Rightarrow> Inr (ucast (z + 128) :: 8 word)) 0
          (empty_cpu (size0 t) zp_mem)
        = Inr (map (\<lambda>i. ucast (?zps ! i + 128)) [0..<size0 t])"
    by (rule store_loop_fill) (simp add: item_def assms(2))
  moreover have "map (\<lambda>i. ucast (?zps ! i + 128) :: 8 word) [0..<size0 t]
        = map (\<lambda>z. ucast (z + 128)) ?zps"
    using assms(2) by (simp add: list_eq_iff_nth_eq)
  moreover have "store_loop (size0 t) (\<lambda>i. item ?scs i) 0 (empty_cpu (size0 t) scale_mem)
        = Inr (map (\<lambda>i. ?scs ! i) [0..<size0 t])"
    by (rule store_loop_fill) (simp add: item_def assms(3))
  moreover have "map (\<lambda>i. ?scs ! i) [0..<size0 t] = ?scs"
    using assms(3) by (simp add: list_eq_iff_nth_eq)
  ultimately show ?thesis
    using assms(1) by (simp add: make_zero_points_and_scales_tensor_def Let_def)
qed

lemma make_other_scheme:
  assumes "qscheme t \<noteq> kPerTensorAffine" and "qscheme t \<noteq> kPerChannelAffine"
  shows "make_zero_points_and_scales_tensor t zp_mem scale_mem =
           Inr (map zp_mem [0..<size0 t], map scale_mem [0..<size0 t])"
  using assms by (simp add: make_zero_points_and_scales_tensor_def empty_cpu_def Let_def)

lemma bias_u8_of_int: "unat (word_of_int (z + 128) :: 8 word) = nat ((z + 128) mod 256)"
proof -
  define w :: "8 word" where "w = word_of_int (z + 128)"
  have u: "uint w = (z + 128) mod 2 ^ LENGTH(8)"
    unfolding w_def by (rule uint_word_of_int)
  have "unat w = nat (uint w)"
    by (rule unat_eq_nat_uint)
  also have "\<dots> = nat ((z + 128) mod 256)"
    unfolding u by simp
  finally show ?thesis
    unfolding w_def .
qed

lemma bias_u8_of_i32:
  "(ucast (z + 128 :: 32 word) :: 8 word) = word_of_int (sint z + 128)"
proof -
  have "(z + 128 :: 32 word) = word_of_int (sint z + 128)"
    by simp
  then have "(ucast (z + 128) :: 8 word) = ucast (word_of_int (sint z + 128) :: 32 word)"
    by (rule arg_cong)
  also have "\<dots> = word_of_int (sint z + 128)"
    by (rule ucast_down_wi) (simp add: is_down)
  finally show ?thesis .
qed

lemma word_of_int_mod_256: "(word_of_int (k mod 256) :: 8 word) = word_of_int k"
  by (simp add: word_of_int_eq_iff take_bit_eq_mod)

text \<open>
  A per-channel weight with fewer zero points than channels makes the zero-point loop
  read past the end of them, which the tensor library answers with an exception.
\<close>

lemma short_per_channel_throws:
  "make_zero_points_and_scales_tensor short_per_channel_example stale_bytes stale_floats
     = Inl IndexError"
  by (simp add: make_zero_points_and_scales_tensor_def short_per_channel_example_def
      store_loop.simps[of _ _ 0] store_loop.simps[of _ _ "Suc 0"] item_def empty_cpu_def)

text \<open>
  C5. For a per-tensor-affine weight every channel gets the byte
  \<open>(q_zero_point + 128) mod 256\<close> and the scalar scale; for a per-channel-affine weight
  whose per-channel parameters are as many as its leading dimension, channel \<open>i\<close> gets
  the byte \<open>(zero_point[i] + 128) mod 256\<close> and \<open>scale[i]\<close>. Both results have one
  entry per output channel, whatever the allocated memory held.
\<close>

theorem make_zero_points_and_scales_tensor_affine:
  "(qscheme t = kPerTensorAffine \<longrightarrow>
      make_zero_points_and_scales_tensor t zp_mem scale_mem =
        Inr (replicate (size0 t) (word_of_int ((q_zero_point t + 128) mod 256)),
             replicate (size0 t) (q_scale t)))
   \<and> (qscheme t = kPerChannelAffine
        \<and> length (q_per_channel_zero_points t) = size0 t
        \<and> length (q_per_channel_scales t) = size0 t \<longrightarrow>
      make_zero_points_and_scales_tensor t zp_mem scale_mem =
        Inr (map (\<lambda>z. word_of_int ((sint z + 128) mod 256)) (q_per_channel_zero_points t),
             q_per_channel_scales t))"
proof (intro conjI impI)
  assume "qscheme t = kPerTensorAffine"
  then show "make_zero_points_and_scales_tensor t zp_mem scale_mem =
        Inr (replicate (size0 t) (word_of_int ((q_zero_point t + 128) mod 256)),
             replicate (size0 t) (q_scale t))"
    by (simp only: make_per_tensor word_of_int_mod_256)
next
  assume "qscheme t = kPerChannelAffine
        \<and> length (q_per_channel_zero_points t) = size0 t
        \<and> length (q_per_channel_scales t) = size0 t"
  then have "make_zero_points_and_scales_tensor t zp_mem scale_mem =
           Inr (map (\<lambda>z. ucast (z + 128)) (q_per_channel_zero_points t),
                q_per_channel_scales t)"
    by (intro make_per_channel) simp_all
  then show "make_zero_points_and_scales_tensor t zp_mem scale_mem =
        Inr (map (\<lambda>z. word_of_int ((sint z + 128) mod 256)) (q_per_channel_zero_points t),
             q_per_channel_scales t)"
    by (simp only: bias_u8_of_i32 word_of_int_mod_256)
qed

theorem make_zero_points_and_scales_tensor_affine_witness:
  "qscheme per_tensor_example = kPerTensorAffine
   \<and> make_zero_points_and_scales_tensor per_tensor_example stale_bytes stale_floats =
       Inr ([138, 138, 138, 138], [f32_half, f32_half, f32_half, f32_half])
   \<and> qscheme per_channel_example = kPerChannelAffine
   \<and> length (q_per_channel_zero_points per_channel_example) = size0 per_channel_example
   \<and> length (q_per_channel_scales per_channel_example) = size0 per_channel_example
   \<and> make_zero_points_and_scales_tensor per_channel_example stale_bytes stale_floats =
       Inr ([133, 125], [f32_tenth, f32_fifth])"
  using make_zero_points_and_scales_tensor_affine[of per_tensor_example stale_bytes stale_floats]
    make_zero_points_and_scales_tensor_affine[of per_channel_example stale_bytes stale_floats]
  by (simp add: per_tensor_example_def per_channel_example_def numeral_eq_Suc)

text \<open>
  C6. Under either scheme the zero point stored for channel \<open>i\<close> is, read as a number,
  \<open>(z + 128) mod 256\<close> for the weight's zero point \<open>z\<close> (the scalar one, or the one of
  channel \<open>i\<close>): the bias wraps, it does not saturate.
\<close>

theorem zero_point_bias_wraps:
  "i < size0 t \<Longrightarrow>
   (qscheme t = kPerTensorAffine \<longrightarrow>
      (case make_zero_points_and_scales_tensor t zp_mem scale_mem of
         Inl e \<Rightarrow> False
       | Inr (zp, sc) \<Rightarrow> unat (zp ! i) = nat ((q_zero_point t + 128) mod 256)))
   \<and> (qscheme t = kPerChannelAffine
        \<and> length (q_per_channel_zero_points t) = size0 t
        \<and> length (q_per_channel_scales t) = size0 t \<longrightarrow>
      (case make_zero_points_and_scales_tensor t zp_mem scale_mem of
         Inl e \<Rightarrow> False
       | Inr (zp, sc) \<Rightarrow>
           unat (zp ! i) = nat ((sint (q_per_channel_zero_points t ! i) + 128) mod 256)))"
  by (simp add: make_per_tensor make_per_channel bias_u8_of_i32 bias_u8_of_int
      del: of_int_add)

theorem zero_point_bias_wraps_witness:
  "(0 :: nat) < size0 zero_point_200_example
   \<and> qscheme zero_point_200_example = kPerTensorAffine
   \<and> q_zero_point zero_point_200_example = 200
   \<and> make_zero_points_and_scales_tensor zero_point_200_example stale_bytes stale_floats
       = Inr ([72], [f32_half])
   \<and> unat (72 :: 8 word) = nat ((200 + 128) mod 256)"
proof -
  have h: "(0 :: nat) < size0 zero_point_200_example"
    by (simp add: zero_point_200_example_def)
  have m: "make_zero_points_and_scales_tensor zero_point_200_example stale_bytes stale_floats
       = Inr ([72], [f32_half])"
    using make_per_tensor[of zero_point_200_example stale_bytes stale_floats]
    by (simp add: zero_point_200_example_def)
  from zero_point_bias_wraps[OF h, of stale_bytes stale_floats] h m show ?thesis
    by (simp add: zero_point_200_example_def)
qed

text \<open>
  C8, as the code has it. For a scheme that is neither per-tensor affine nor
  per-channel affine neither chain has a branch: the function raises nothing and
  returns the two arrays as they were allocated, one entry per channel, never written.
\<close>

theorem make_zero_points_and_scales_tensor_other_scheme:
  "qscheme t \<noteq> kPerTensorAffine \<Longrightarrow> qscheme t \<noteq> kPerChannelAffine \<Longrightarrow>
     make_zero_points_and_scales_tensor t zp_mem scale_mem =
       Inr (map zp_mem [0..<size0 t], map scale_mem [0..<size0 t])"
  by (rule make_other_scheme)

theorem make_zero_points_and_scales_tensor_other_scheme_witness:
  "qscheme symmetric_example \<noteq> kPerTensorAffine
   \<and> qscheme symmetric_example \<noteq> kPerChannelAffine
   \<and> make_zero_points_and_scales_tensor symmetric_example stale_bytes stale_floats =
       Inr (map stale_bytes [0..<size0 symmetric_example],
            map stale_floats [0..<size0 symmetric_example])"
proof -
  have h: "qscheme symmetric_example \<noteq> kPerTensorAffine"
      "qscheme symmetric_example \<noteq> kPerChannelAffine"
    by (simp_all add: symmetric_example_def)
  from make_zero_points_and_scales_tensor_other_scheme[OF h] h show ?thesis
    by blast
qed

text \<open>
  C8 as stated fails: a per-tensor-symmetric weight with two channels makes the
  function return, with the stale contents of the memory in both arrays.
\<close>

theorem make_zero_points_and_scales_tensor_other_scheme_counterexample:
  "qscheme symmetric_example \<noteq> kPerTensorAffine
   \<and> qscheme symmetric_example \<noteq> kPerChannelAffine
   \<and> make_zero_points_and_scales_tensor symmetric_example stale_bytes stale_floats =
       Inr ([170, 170], [f32_nan, f32_nan])"
  by (simp add: make_other_scheme symmetric_example_def stale_bytes_def stale_floats_def
      numeral_2_eq_2)

end
